theory Spec2Isabelle
  imports Main "HOL-Library.Word" "HOL-Library.Log_Nat"
begin

section \<open>IEEE-754 binary32, as far as \<open>MainFrame::CheckDiskSpace\<close> uses it\<close>

text \<open>
  \<open>CheckDiskSpace\<close> computes both ratios in C++ \<open>float\<close>. A \<open>float\<close> is modelled by
  the rational it denotes, or one of the three special values. Every operation rounds the
  exact result to the nearest binary32 value, ties to the even significand (24 bits of
  precision, least normal exponent -126, overflow to infinity from \<open>2^128\<close> on). The only
  zero that arises in \<open>CheckDiskSpace\<close> is the positive one (an unsigned integer or an
  \<open>int\<close> converted to \<open>float\<close>), so zero carries no sign here.
\<close>

datatype float32 = Finite rat | PosInf | NegInf | NaN

definition round_half_even :: "rat \<Rightarrow> int" where
  "round_half_even x =
     (let f = \<lfloor>x\<rfloor>; r = x - of_int f
      in if r < 1 / 2 then f else if 1 / 2 < r then f + 1 else if even f then f else f + 1)"

definition pow2 :: "int \<Rightarrow> rat" where
  "pow2 e = (if 0 \<le> e then 2 ^ nat e else 1 / 2 ^ nat (- e))"

definition ilog2 :: "rat \<Rightarrow> int" where
  \<comment> \<open>\<open>\<lfloor>log\<^sub>2 a\<rfloor>\<close> for \<open>a > 0\<close>, from the bit lengths of numerator and denominator\<close>
  "ilog2 a =
     (let (n, d) = quotient_of a;
          e0 = bitlen n - bitlen d
      in if pow2 e0 \<le> a then e0 else e0 - 1)"

definition round_to_float32 :: "rat \<Rightarrow> float32" where
  "round_to_float32 q =
     (if q = 0 then Finite 0
      else
        let a = \<bar>q\<bar>;
            e = max (ilog2 a) (- 126);
            ulp = pow2 (e - 23);
            r = of_int (round_half_even (a / ulp)) * ulp
        in if pow2 128 \<le> r then (if 0 < q then PosInf else NegInf)
           else Finite (if 0 < q then r else - r))"

definition float_of_uint64 :: "64 word \<Rightarrow> float32" where
  \<comment> \<open>\<open>static_cast<float>(x.QuadPart)\<close>\<close>
  "float_of_uint64 w = round_to_float32 (of_int (uint w))"

definition float_of_int32 :: "32 word \<Rightarrow> float32" where
  \<comment> \<open>the usual arithmetic conversion of \<open>int limit\<close> in \<open>limit / 100.0f\<close>\<close>
  "float_of_int32 i = round_to_float32 (of_int (sint i))"

fun float_div :: "float32 \<Rightarrow> float32 \<Rightarrow> float32" where
  "float_div NaN _ = NaN"
| "float_div _ NaN = NaN"
| "float_div (Finite a) (Finite b) =
     (if b = 0 then (if a = 0 then NaN else if 0 < a then PosInf else NegInf)
      else round_to_float32 (a / b))"
| "float_div (Finite a) PosInf = Finite 0"
| "float_div (Finite a) NegInf = Finite 0"
| "float_div PosInf (Finite b) = (if 0 \<le> b then PosInf else NegInf)"
| "float_div NegInf (Finite b) = (if 0 \<le> b then NegInf else PosInf)"
| "float_div PosInf PosInf = NaN"
| "float_div PosInf NegInf = NaN"
| "float_div NegInf PosInf = NaN"
| "float_div NegInf NegInf = NaN"

fun float_less :: "float32 \<Rightarrow> float32 \<Rightarrow> bool" where
  "float_less NaN _ = False"
| "float_less _ NaN = False"
| "float_less (Finite a) (Finite b) = (a < b)"
| "float_less (Finite a) PosInf = True"
| "float_less (Finite a) NegInf = False"
| "float_less PosInf _ = False"
| "float_less NegInf (Finite b) = True"
| "float_less NegInf PosInf = True"
| "float_less NegInf NegInf = False"


section \<open>Data model of \<open>MainFrame\<close>\<close>

unbundle bit_operations_syntax

text \<open>
  libtorrent's \<open>info_hash_t\<close>: a SHA-1 and a SHA-256 digest, each all zeros when that
  version of the hash is absent (\<open>has_v1()\<close> is \<open>!v1.is_all_zeros()\<close>).
\<close>

record info_hash_t =
  v1 :: "160 word"
  v2 :: "256 word"

definition is_all_zeros :: "'a::len word \<Rightarrow> bool" where
  "is_all_zeros d = (d = 0)"

definition has_v1 :: "info_hash_t \<Rightarrow> bool" where
  "has_v1 h = (\<not> is_all_zeros (v1 h))"

definition has_v2 :: "info_hash_t \<Rightarrow> bool" where
  "has_v2 h = (\<not> is_all_zeros (v2 h))"

record torrent_info =
  ti_name :: string

text \<open>
  \<open>BitTorrent::AddParams\<close>, the client data attached to every descriptor. \<open>None\<close> stands
  for the value its constructor gives \<open>labelId\<close> (its header, \<open>addparams.hpp\<close>, is not modelled).
\<close>

record AddParams =
  labelId :: "int option"

record add_torrent_params =
  flags :: "64 word"
  save_path :: string
  userdata :: "AddParams option"
  info_hashes :: info_hash_t
  ti :: "torrent_info option"
  name :: string

definition duplicate_is_error :: "64 word" where
  \<comment> \<open>\<open>lt::torrent_flags::duplicate_is_error\<close>\<close>
  "duplicate_is_error = push_bit 6 1"

text \<open>A label of the configuration, with the fields \<open>AddTorrents\<close> reads.\<close>

record Label =
  label_id :: int
  savePath :: string
  savePathEnabled :: bool
  applyFilter :: string
  applyFilterEnabled :: bool

text \<open>
  A \<open>TorrentHandle*\<close>: the address, and what \<open>InfoHash()\<close> and \<open>Status()\<close> return when a
  handler reads them. \<open>status_paused\<close> is never read by \<open>MainFrame\<close>; it is carried so that a
  torrent that is still paused can be told from one that is downloading again.
\<close>

record TorrentHandle =
  handle_ptr :: nat
  InfoHash :: info_hash_t
  status_name :: string
  status_savePath :: string
  status_paused :: bool

record MetadataFoundEvent =
  md_hash :: info_hash_t
  md_info :: torrent_info

record AddTorrentDialog =
  dlg_ptr :: nat
  dlg_param :: add_torrent_params

text \<open>The configuration keys the handlers read.\<close>

record Configuration =
  default_save_path :: string
  skip_add_torrent_dialog :: bool
  pause_on_low_disk_space :: bool
  pause_on_low_disk_space_limit :: "32 word"
  labels :: "Label list"

text \<open>
  What lies outside the program: \<open>std::regex\<close> (whether a pattern compiles with
  \<open>ECMAScript | icase\<close>, and \<open>regex_search\<close> of a name with a compiled pattern), the
  Win32 call \<open>GetDiskFreeSpaceEx\<close> (\<open>None\<close> when it returns \<open>FALSE\<close>, else
  \<open>freeBytesAvailableToCaller\<close> and \<open>totalNumberOfBytes\<close>), and whether \<open>_WIN32\<close> is defined.
\<close>

record env =
  regex_valid :: "string \<Rightarrow> bool"
  regex_search :: "string \<Rightarrow> string \<Rightarrow> bool"
  GetDiskFreeSpaceEx :: "string \<Rightarrow> (64 word \<times> 64 word) option"
  WIN32 :: bool

datatype error = regex_error

text \<open>The calls \<open>MainFrame\<close> makes on its collaborators, in the order it makes them.\<close>

datatype effect =
    UpdateTorrentCount int
  | Model_AddTorrent TorrentHandle
  | Model_RemoveTorrent info_hash_t
  | Model_UpdateTorrents "TorrentHandle list"
  | Details_Reset
  | Details_Refresh "(info_hash_t \<times> TorrentHandle) list"
  | Pause TorrentHandle
  | ShowBalloon string string
  | Session_AddTorrent add_torrent_params
  | Session_AddMetadataSearch "info_hash_t list"
  | Dialog_Show AddTorrentDialog
  | PostEvent nat MetadataFoundEvent

text \<open>
  The members of \<open>MainFrame\<close> the handlers change. \<open>m_selection\<close> is a
  \<open>std::map<info_hash_t, TorrentHandle*>\<close>, kept as an association list with distinct keys
  and read through \<open>map_find\<close> (the list is in insertion order, the \<open>std::map\<close> in key
  order; no handler modelled here depends on the order). \<open>m_addDialogs\<close> is the set of open
  add-torrent dialogs, as a list in creation order, and \<open>next_dialog\<close> is the address the
  next \<open>new AddTorrentDialog\<close> returns. \<open>m_torrentsCount\<close> is a machine integer in the
  source; it is an \<open>int\<close> here and its range is proved separately.
\<close>

record MainFrame =
  m_torrentsCount :: int
  m_selection :: "(info_hash_t \<times> TorrentHandle) list"
  m_addDialogs :: "AddTorrentDialog list"
  next_dialog :: nat

definition map_find :: "('k \<times> 'v) list \<Rightarrow> 'k \<Rightarrow> 'v option" where
  "map_find m k = map_of m k"

definition map_insert :: "'k \<times> 'v \<Rightarrow> ('k \<times> 'v) list \<Rightarrow> ('k \<times> 'v) list" where
  \<comment> \<open>\<open>std::map::insert\<close>: an existing key keeps its value\<close>
  "map_insert kv m = (if map_of m (fst kv) = None then m @ [kv] else m)"

definition map_erase :: "'k \<Rightarrow> ('k \<times> 'v) list \<Rightarrow> ('k \<times> 'v) list" where
  "map_erase k m = filter (\<lambda>kv. fst kv \<noteq> k) m"


section \<open>\<open>MainFrame::CheckDiskSpace\<close>\<close>

definition diskSpaceAvailable :: "64 word \<Rightarrow> 64 word \<Rightarrow> float32" where
  "diskSpaceAvailable freeBytesAvailableToCaller totalNumberOfBytes =
     float_div (float_of_uint64 freeBytesAvailableToCaller) (float_of_uint64 totalNumberOfBytes)"

definition diskSpaceLimit :: "32 word \<Rightarrow> float32" where
  "diskSpaceLimit limit = float_div (float_of_int32 limit) (Finite 100)"

definition check_torrent :: "env \<Rightarrow> 32 word \<Rightarrow> TorrentHandle \<Rightarrow> effect list" where
  \<comment> \<open>one turn of the loop over \<open>torrents\<close>\<close>
  "check_torrent e limit torrent =
     (case GetDiskFreeSpaceEx e (status_savePath torrent) of
        None \<Rightarrow> []
      | Some (freeBytes, totalBytes) \<Rightarrow>
          if float_less (diskSpaceAvailable freeBytes totalBytes) (diskSpaceLimit limit)
          then [Pause torrent, ShowBalloon ''pause_on_low_disk_space_alert'' (status_name torrent)]
          else [])"

fun check_torrents :: "env \<Rightarrow> 32 word \<Rightarrow> TorrentHandle list \<Rightarrow> effect list" where
  "check_torrents e limit [] = []"
| "check_torrents e limit (torrent # torrents) =
     check_torrent e limit torrent @ check_torrents e limit torrents"

definition CheckDiskSpace :: "env \<Rightarrow> Configuration \<Rightarrow> TorrentHandle list \<Rightarrow> effect list" where
  "CheckDiskSpace e cfg torrents =
     (let shouldCheck = pause_on_low_disk_space cfg;
          limit = pause_on_low_disk_space_limit cfg
      in if \<not> shouldCheck then []
         else if WIN32 e then check_torrents e limit torrents
         else [])"


section \<open>The event handlers bound in the constructor\<close>

definition on_torrent_added :: "TorrentHandle \<Rightarrow> MainFrame \<Rightarrow> effect list \<times> MainFrame" where
  \<comment> \<open>\<open>ptEVT_TORRENT_ADDED\<close>\<close>
  "on_torrent_added torrent s =
     (let s1 = s\<lparr>m_torrentsCount := m_torrentsCount s + 1\<rparr>
      in ([UpdateTorrentCount (m_torrentsCount s1), Model_AddTorrent torrent], s1))"

definition on_torrent_removed :: "info_hash_t \<Rightarrow> MainFrame \<Rightarrow> effect list \<times> MainFrame" where
  \<comment> \<open>\<open>ptEVT_TORRENT_REMOVED\<close>\<close>
  "on_torrent_removed hash s =
     (let s1 = s\<lparr>m_torrentsCount := m_torrentsCount s - 1\<rparr>;
          out = [UpdateTorrentCount (m_torrentsCount s1), Model_RemoveTorrent hash]
      in case map_find (m_selection s1) hash of
           None \<Rightarrow> (out, s1)
         | Some _ \<Rightarrow>
             (out @ [Details_Reset], s1\<lparr>m_selection := map_erase hash (m_selection s1)\<rparr>))"

fun selectedUpdated ::
  "(info_hash_t \<times> TorrentHandle) list \<Rightarrow> TorrentHandle list \<Rightarrow>
   (info_hash_t \<times> TorrentHandle) list \<Rightarrow> (info_hash_t \<times> TorrentHandle) list" where
  "selectedUpdated sel [] acc = acc"
| "selectedUpdated sel (torrent # torrents) acc =
     (let infoHash = InfoHash torrent
      in if map_find sel infoHash \<noteq> None
         then selectedUpdated sel torrents (map_insert (infoHash, torrent) acc)
         else selectedUpdated sel torrents acc)"

definition on_torrents_updated ::
  "env \<Rightarrow> Configuration \<Rightarrow> TorrentHandle list \<Rightarrow> MainFrame \<Rightarrow> effect list \<times> MainFrame" where
  \<comment> \<open>\<open>ptEVT_TORRENTS_UPDATED\<close>\<close>
  "on_torrents_updated e cfg torrents s =
     (let su = selectedUpdated (m_selection s) torrents []
      in ([Model_UpdateTorrents torrents]
          @ (if 0 < length su then [Details_Refresh su] else [])
          @ CheckDiskSpace e cfg torrents, s))"

definition on_selection_changed :: "TorrentHandle list \<Rightarrow> MainFrame \<Rightarrow> effect list \<times> MainFrame" where
  \<comment> \<open>\<open>wxEVT_DATAVIEW_SELECTION_CHANGED\<close>; \<open>items\<close> are the torrents of the selected rows\<close>
  "on_selection_changed items s =
     (let s1 = s\<lparr>m_selection := []\<rparr>
      in if items = [] then ([Details_Reset], s1)
         else
           let sel = fold (\<lambda>torrent m. map_insert (InfoHash torrent, torrent) m) items []
           in ([Details_Refresh sel], s1\<lparr>m_selection := sel\<rparr>))"

definition on_metadata_found :: "MetadataFoundEvent \<Rightarrow> MainFrame \<Rightarrow> effect list \<times> MainFrame" where
  \<comment> \<open>\<open>ptEVT_TORRENT_METADATA_FOUND\<close>\<close>
  "on_metadata_found evt s = (map (\<lambda>dlg. PostEvent (dlg_ptr dlg) evt) (m_addDialogs s), s)"

definition on_dialog_closed :: "nat \<Rightarrow> MainFrame \<Rightarrow> effect list \<times> MainFrame" where
  \<comment> \<open>the \<open>wxEVT_CLOSE_WINDOW\<close> handler \<open>AddTorrents\<close> binds on each dialog\<close>
  "on_dialog_closed dlg s =
     ([], s\<lparr>m_addDialogs := filter (\<lambda>d. dlg_ptr d \<noteq> dlg) (m_addDialogs s)\<rparr>)"

datatype event =
    TorrentAdded TorrentHandle
  | TorrentRemoved info_hash_t
  | TorrentsUpdated "TorrentHandle list"
  | SelectionChanged "TorrentHandle list"
  | MetadataFound MetadataFoundEvent
  | DialogClosed nat

fun handle :: "env \<Rightarrow> Configuration \<Rightarrow> event \<Rightarrow> MainFrame \<Rightarrow> effect list \<times> MainFrame" where
  "handle e cfg (TorrentAdded torrent) s = on_torrent_added torrent s"
| "handle e cfg (TorrentRemoved hash) s = on_torrent_removed hash s"
| "handle e cfg (TorrentsUpdated torrents) s = on_torrents_updated e cfg torrents s"
| "handle e cfg (SelectionChanged items) s = on_selection_changed items s"
| "handle e cfg (MetadataFound evt) s = on_metadata_found evt s"
| "handle e cfg (DialogClosed dlg) s = on_dialog_closed dlg s"

text \<open>Events are applied one at a time, in arrival order, on the one thread that owns the frame.\<close>

fun run :: "env \<Rightarrow> Configuration \<Rightarrow> event list \<Rightarrow> MainFrame \<Rightarrow> effect list \<times> MainFrame" where
  "run e cfg [] s = ([], s)"
| "run e cfg (ev # evs) s =
     (let (out1, s1) = handle e cfg ev s;
          (out2, s2) = run e cfg evs s1
      in (out1 @ out2, s2))"

definition initial :: MainFrame where
  \<comment> \<open>the member initialisers of the constructor\<close>
  "initial = \<lparr>m_torrentsCount = 0, m_selection = [], m_addDialogs = [], next_dialog = 0\<rparr>"

section \<open>\<open>MainFrame::AddTorrents\<close>\<close>

definition derived_name :: "add_torrent_params \<Rightarrow> string" where
  "derived_name p =
     (let n0 = (case ti p of Some t \<Rightarrow> ti_name t | None \<Rightarrow> [])
      in if 0 < length (name p) then name p else n0)"

fun match_labels :: "env \<Rightarrow> Label list \<Rightarrow> add_torrent_params \<Rightarrow> error + add_torrent_params" where
  "match_labels e [] p = Inr p"
| "match_labels e (label # rest) p =
     (if \<not> applyFilterEnabled label \<or> applyFilter label = [] then match_labels e rest p
      else if derived_name p = [] then match_labels e rest p
      else if \<not> regex_valid e (applyFilter label) then Inl regex_error
      else if regex_search e (derived_name p) (applyFilter label)
      then Inr (p\<lparr>userdata := Some \<lparr>labelId = Some (label_id label)\<rparr>,
                   save_path := (if 0 < length (savePath label) \<and> savePathEnabled label
                                 then savePath label else save_path p)\<rparr>)
      else match_labels e rest p)"

definition needs_metadata :: "add_torrent_params \<Rightarrow> bool" where
  "needs_metadata p =
     (((has_v1 (info_hashes p) \<and> \<not> is_all_zeros (v1 (info_hashes p)))
        \<or> (has_v2 (info_hashes p) \<and> \<not> is_all_zeros (v2 (info_hashes p))))
      \<and> ti p = None)"

fun classify ::
  "env \<Rightarrow> Configuration \<Rightarrow> add_torrent_params list \<Rightarrow> info_hash_t list \<Rightarrow>
   error + (add_torrent_params list \<times> info_hash_t list)" where
  "classify e cfg [] hashes = Inr ([], hashes)"
| "classify e cfg (p # ps) hashes =
     (let p1 = p\<lparr>flags := flags p OR duplicate_is_error,
                 save_path := default_save_path cfg,
                 userdata := Some \<lparr>labelId = None\<rparr>\<rparr>;
          hashes1 = (if needs_metadata p1 then hashes @ [info_hashes p1] else hashes)
      in case match_labels e (labels cfg) p1 of
           Inl err \<Rightarrow> Inl err
         | Inr p2 \<Rightarrow>
             (case classify e cfg ps hashes1 of
                Inl err \<Rightarrow> Inl err
              | Inr (ps2, hashes2) \<Rightarrow> Inr (p2 # ps2, hashes2)))"

fun show_dialogs :: "add_torrent_params list \<Rightarrow> MainFrame \<Rightarrow> effect list \<times> MainFrame" where
  "show_dialogs [] s = ([], s)"
| "show_dialogs (param # params) s =
     (let dlg = \<lparr>dlg_ptr = next_dialog s, dlg_param = param\<rparr>;
          s1 = s\<lparr>m_addDialogs := m_addDialogs s @ [dlg], next_dialog := Suc (next_dialog s)\<rparr>;
          (out, s2) = show_dialogs params s1
      in (Dialog_Show dlg # out, s2))"

definition AddTorrents ::
  "env \<Rightarrow> Configuration \<Rightarrow> add_torrent_params list \<Rightarrow> MainFrame \<Rightarrow>
   error + (add_torrent_params list \<times> effect list \<times> MainFrame)" where
  \<comment> \<open>the result holds \<open>params\<close> as the call leaves the caller's vector\<close>
  "AddTorrents e cfg params s =
     (if params = [] then Inr (params, [], s)
      else
        case classify e cfg params [] of
          Inl err \<Rightarrow> Inl err
        | Inr (params1, hashes) \<Rightarrow>
            if skip_add_torrent_dialog cfg
            then Inr (params1, map Session_AddTorrent params1, s)
            else
              let (out, s1) = show_dialogs params1 s
              in Inr (params1, out @ [Session_AddMetadataSearch hashes], s1))"


section \<open>Vocabulary of the specification\<close>

definition below_limit :: "env \<Rightarrow> Configuration \<Rightarrow> TorrentHandle \<Rightarrow> bool" where
  \<comment> \<open>the disk query for the handle's save path succeeds and \<open>available_ratio < limit_ratio\<close>\<close>
  "below_limit e cfg torrent =
     (case GetDiskFreeSpaceEx e (status_savePath torrent) of
        None \<Rightarrow> False
      | Some (freeBytes, totalBytes) \<Rightarrow>
          float_less (diskSpaceAvailable freeBytes totalBytes)
            (diskSpaceLimit (pause_on_low_disk_space_limit cfg)))"

fun governor_effect :: "effect \<Rightarrow> bool" where
  "governor_effect (Pause _) = True"
| "governor_effect (ShowBalloon _ _) = True"
| "governor_effect _ = False"

fun is_refresh :: "effect \<Rightarrow> bool" where
  "is_refresh (Details_Refresh _) = True"
| "is_refresh _ = False"

fun is_metadata_search :: "effect \<Rightarrow> bool" where
  "is_metadata_search (Session_AddMetadataSearch _) = True"
| "is_metadata_search _ = False"

fun is_added :: "event \<Rightarrow> bool" where
  "is_added (TorrentAdded _) = True"
| "is_added _ = False"

fun is_removed :: "event \<Rightarrow> bool" where
  "is_removed (TorrentRemoved _) = True"
| "is_removed _ = False"

definition metadata_pending :: "add_torrent_params \<Rightarrow> bool" where
  \<comment> \<open>the specification's words: no full description, and a v1 or v2 hash that is not all zeros\<close>
  "metadata_pending p = (ti p = None \<and> (v1 (info_hashes p) \<noteq> 0 \<or> v2 (info_hashes p) \<noteq> 0))"

definition uses_pattern :: "Label \<Rightarrow> bool" where
  \<comment> \<open>the label is not skipped by the first test of the matching loop\<close>
  "uses_pattern l = (applyFilterEnabled l \<and> applyFilter l \<noteq> [])"

definition patterns_valid :: "env \<Rightarrow> Label list \<Rightarrow> bool" where
  "patterns_valid e ls = list_all (regex_valid e) (map applyFilter (filter uses_pattern ls))"

fun reaches_invalid :: "env \<Rightarrow> string \<Rightarrow> Label list \<Rightarrow> bool" where
  \<comment> \<open>going through the labels in order for a name, a label that uses a pattern has one that
      does not compile, and no label before it matched the name\<close>
  "reaches_invalid e n [] = False"
| "reaches_invalid e n (l # ls) =
     (if uses_pattern l
      then \<not> regex_valid e (applyFilter l)
           \<or> (\<not> regex_search e n (applyFilter l) \<and> reaches_invalid e n ls)
      else reaches_invalid e n ls)"

section \<open>Sample inputs\<close>

text \<open>
  A stand-in for \<open>std::regex\<close> on the patterns used below: a pattern of letters is searched
  as a substring without regard to case, and the pattern \<open>(\<close> does not compile (an
  unbalanced parenthesis makes the constructor throw \<open>std::regex_error\<close>).
\<close>

definition lower :: "char \<Rightarrow> char" where
  "lower c = (let n = (of_char c :: nat) in if 65 \<le> n \<and> n \<le> 90 then char_of (n + 32) else c)"

fun starts_with :: "string \<Rightarrow> string \<Rightarrow> bool" where
  "starts_with [] cs = True"
| "starts_with (p # ps) [] = False"
| "starts_with (p # ps) (c # cs) = (p = c \<and> starts_with ps cs)"

fun contains :: "string \<Rightarrow> string \<Rightarrow> bool" where
  "contains p [] = (p = [])"
| "contains p (c # cs) = (starts_with p (c # cs) \<or> contains p cs)"

definition sample_env :: env where
  "sample_env =
     \<lparr>regex_valid = (\<lambda>p. p \<noteq> ''(''),
      regex_search = (\<lambda>n p. contains (map lower p) (map lower n)),
      GetDiskFreeSpaceEx =
        (\<lambda>path. if path = ''C:/full'' then Some (49, 100)
                 else if path = ''C:/half'' then Some (50, 100)
                 else if path = ''C:/unknown'' then Some (7, 0)
                 else None),
      WIN32 = True\<rparr>"

definition iso_label :: Label where
  "iso_label =
     \<lparr>label_id = 1, savePath = ''/iso'', savePathEnabled = True,
      applyFilter = ''ubuntu'', applyFilterEnabled = True\<rparr>"

definition broken_label :: Label where
  "broken_label =
     \<lparr>label_id = 2, savePath = [], savePathEnabled = False,
      applyFilter = ''('', applyFilterEnabled = True\<rparr>"

definition sample_cfg :: Configuration where
  "sample_cfg =
     \<lparr>default_save_path = ''C:/dl'', skip_add_torrent_dialog = False,
      pause_on_low_disk_space = True, pause_on_low_disk_space_limit = 50,
      labels = [iso_label]\<rparr>"

definition H1 :: info_hash_t where
  "H1 = \<lparr>v1 = 1, v2 = 0\<rparr>"

definition H2 :: info_hash_t where
  "H2 = \<lparr>v1 = 2, v2 = 0\<rparr>"

definition magnet1 :: add_torrent_params where
  "magnet1 =
     \<lparr>flags = 0, save_path = [], userdata = None, info_hashes = H1, ti = None,
      name = ''Ubuntu.ISO''\<rparr>"

definition magnet2 :: add_torrent_params where
  "magnet2 =
     \<lparr>flags = 0, save_path = [], userdata = None, info_hashes = H2, ti = None,
      name = ''debian''\<rparr>"

definition file1 :: add_torrent_params where
  "file1 =
     \<lparr>flags = 0, save_path = [], userdata = None, info_hashes = H1,
      ti = Some \<lparr>ti_name = ''Ubuntu.ISO''\<rparr>, name = []\<rparr>"

definition T1 :: TorrentHandle where
  "T1 =
     \<lparr>handle_ptr = 1, InfoHash = H1, status_name = ''Ubuntu.ISO'',
      status_savePath = ''C:/full'', status_paused = False\<rparr>"

definition T2 :: TorrentHandle where
  "T2 =
     \<lparr>handle_ptr = 2, InfoHash = H2, status_name = ''debian'',
      status_savePath = ''C:/half'', status_paused = False\<rparr>"

definition T3 :: TorrentHandle where
  "T3 =
     \<lparr>handle_ptr = 3, InfoHash = H1, status_name = ''Ubuntu.ISO'',
      status_savePath = ''C:/unknown'', status_paused = False\<rparr>"


text \<open>The sample descriptors as classification under \<open>sample_cfg\<close> leaves them.\<close>

definition ready1 :: add_torrent_params where
  "ready1 = magnet1\<lparr>flags := 64, save_path := ''/iso'', userdata := Some \<lparr>labelId = Some 1\<rparr>\<rparr>"

definition ready2 :: add_torrent_params where
  "ready2 = magnet2\<lparr>flags := 64, save_path := ''C:/dl'', userdata := Some \<lparr>labelId = None\<rparr>\<rparr>"

definition ready_file1 :: add_torrent_params where
  "ready_file1 = file1\<lparr>flags := 64, save_path := ''/iso'', userdata := Some \<lparr>labelId = Some 1\<rparr>\<rparr>"

definition two_dialogs :: MainFrame where
  "two_dialogs =
     initial\<lparr>m_addDialogs := [\<lparr>dlg_ptr = 0, dlg_param = ready1\<rparr>, \<lparr>dlg_ptr = 1, dlg_param = ready2\<rparr>],
             next_dialog := 2\<rparr>"

definition found1 :: MetadataFoundEvent where
  "found1 = \<lparr>md_hash = H1, md_info = \<lparr>ti_name = ''Ubuntu.ISO''\<rparr>\<rparr>"

section \<open>Facts about the arithmetic\<close>

lemma float_less_irrefl: "\<not> float_less x x"
  by (cases x) simp_all

lemma pow2_pos: "0 < pow2 e"
  by (simp add: pow2_def)

lemma round_half_even_nonneg: "0 \<le> x \<Longrightarrow> 0 \<le> round_half_even x"
  by (auto simp: round_half_even_def Let_def)

lemma round_to_float32_nonneg:
  assumes "0 \<le> q"
  shows "round_to_float32 q = PosInf \<or> (\<exists>a\<ge>0. round_to_float32 q = Finite a)"
proof (cases "q = 0")
  case True
  then show ?thesis by (simp add: round_to_float32_def)
next
  case False
  with assms have pos: "0 < q" by simp
  define ulp where "ulp = pow2 (max (ilog2 \<bar>q\<bar>) (- 126) - 23)"
  define r where "r = of_int (round_half_even (\<bar>q\<bar> / ulp)) * ulp"
  have "0 < ulp" by (simp add: ulp_def pow2_pos)
  then have "0 \<le> \<bar>q\<bar> / ulp" by simp
  then have "0 \<le> round_half_even (\<bar>q\<bar> / ulp)" by (rule round_half_even_nonneg)
  with \<open>0 < ulp\<close> have "0 \<le> r" by (simp add: r_def)
  have "round_to_float32 q = (if pow2 128 \<le> r then PosInf else Finite r)"
    using pos by (simp add: round_to_float32_def Let_def r_def ulp_def)
  with \<open>0 \<le> r\<close> show ?thesis by auto
qed

lemma float_of_uint64_cases:
  "float_of_uint64 w = PosInf \<or> (\<exists>a\<ge>0. float_of_uint64 w = Finite a)"
proof -
  have "0 \<le> uint w" by (rule uint_ge_0)
  then have "(0::rat) \<le> of_int (uint w)" by (simp only: of_int_0_le_iff)
  then show ?thesis unfolding float_of_uint64_def by (rule round_to_float32_nonneg)
qed

lemma float_of_uint64_0: "float_of_uint64 0 = Finite 0"
  by (simp add: float_of_uint64_def round_to_float32_def)

lemma diskSpaceAvailable_total_0:
  "diskSpaceAvailable f 0 = PosInf \<or> diskSpaceAvailable f 0 = NaN"
  using float_of_uint64_cases [of f]
  by (auto simp: diskSpaceAvailable_def float_of_uint64_0)

lemma not_less_total_0: "\<not> float_less (diskSpaceAvailable f 0) l"
  using diskSpaceAvailable_total_0 [of f] by (cases l) auto

text \<open>
  The rounding on known values: \<open>0.1f\<close> and \<open>0.01f\<close>, the first integer that is not
  a \<open>float\<close> (a tie, which goes to the even significand), the largest 64-bit value, the
  tie below the least subnormal, and the tie above the largest finite value.
\<close>

lemma round_to_float32_examples:
  "round_to_float32 (1 / 10) = Finite (13421773 / 134217728)"
  "diskSpaceLimit 1 = Finite (5368709 / 536870912)"
  "float_of_uint64 16777217 = Finite 16777216"
  "float_of_uint64 16777219 = Finite 16777220"
  "float_of_uint64 (- 1) = Finite 18446744073709551616"
  "round_to_float32 (pow2 (- 150)) = Finite 0"
  "round_to_float32 (3 * pow2 (- 150)) = Finite (pow2 (- 148))"
  "round_to_float32 (pow2 128 - pow2 103) = PosInf"
  "round_to_float32 (pow2 128 - pow2 103 - 1) = Finite (pow2 128 - pow2 104)"
  by code_simp+

lemma avail_50_100: "diskSpaceAvailable 50 100 = Finite (1 / 2)"
  by code_simp

lemma avail_49_100: "diskSpaceAvailable 49 100 = Finite (2055209 / 4194304)"
  by code_simp

lemma limit_50: "diskSpaceLimit 50 = Finite (1 / 2)"
  by code_simp

section \<open>The disk-space governor\<close>

lemma check_torrent_eq:
  "check_torrent e (pause_on_low_disk_space_limit cfg) t =
     (if below_limit e cfg t
      then [Pause t, ShowBalloon ''pause_on_low_disk_space_alert'' (status_name t)] else [])"
  by (simp add: check_torrent_def below_limit_def split: option.split prod.split)

lemma check_torrents_eq:
  "check_torrents e (pause_on_low_disk_space_limit cfg) ts =
     concat (map (\<lambda>t. [Pause t, ShowBalloon ''pause_on_low_disk_space_alert'' (status_name t)])
       (filter (below_limit e cfg) ts))"
  by (induction ts) (simp_all add: check_torrent_eq)

lemma governor_check_torrents:
  "filter governor_effect (check_torrents e l ts) = check_torrents e l ts"
  by (induction ts) (auto simp: check_torrent_def split: option.split prod.split)

lemma sample_below_limit:
  "below_limit sample_env sample_cfg T1" "\<not> below_limit sample_env sample_cfg T2"
  "\<not> below_limit sample_env sample_cfg T3"
  "below_limit sample_env sample_cfg (T1\<lparr>status_paused := True\<rparr>)"
  by (simp_all add: below_limit_def sample_env_def sample_cfg_def T1_def T2_def T3_def
      avail_50_100 avail_49_100 limit_50 not_less_total_0)


lemma sample_pass:
  assumes "below_limit sample_env sample_cfg t"
  shows "on_torrents_updated sample_env sample_cfg [t] initial =
           ([Model_UpdateTorrents [t], Pause t,
             ShowBalloon ''pause_on_low_disk_space_alert'' (status_name t)], initial)"
proof -
  have c: "pause_on_low_disk_space sample_cfg" "WIN32 sample_env"
    by (simp_all add: sample_cfg_def sample_env_def)
  have "CheckDiskSpace sample_env sample_cfg [t] =
          [Pause t, ShowBalloon ''pause_on_low_disk_space_alert'' (status_name t)]"
    using assms by (simp add: CheckDiskSpace_def Let_def c check_torrent_eq)
  then show ?thesis
    by (simp add: on_torrents_updated_def initial_def map_find_def Let_def)
qed

text \<open>
  Claim C1, as the specification states it: a torrent below the limit is paused and announced
  at most once per pause episode; while it stays paused, later passes issue nothing for it.
  The code keeps no record of earlier warnings. Two successive update batches for the same
  torrent on a disk with 49 of 100 bytes free and a limit of 50 percent, the torrent already
  paused when the second arrives, each issue the pause and the notification.
\<close>

theorem governor_once_per_episode_counterexample:
  "fst (run sample_env sample_cfg
          [TorrentsUpdated [T1], TorrentsUpdated [T1\<lparr>status_paused := True\<rparr>]] initial) =
     [Model_UpdateTorrents [T1],
      Pause T1, ShowBalloon ''pause_on_low_disk_space_alert'' ''Ubuntu.ISO'',
      Model_UpdateTorrents [T1\<lparr>status_paused := True\<rparr>],
      Pause (T1\<lparr>status_paused := True\<rparr>),
      ShowBalloon ''pause_on_low_disk_space_alert'' ''Ubuntu.ISO'']"
proof -
  have n: "status_name T1 = ''Ubuntu.ISO''" by (simp add: T1_def)
  show ?thesis
    by (simp add: sample_pass sample_below_limit n)
qed

text \<open>
  Claim C1, amended: with the governor enabled on a Windows build, every pass issues, for
  each handle of its batch whose disk query succeeds with the available ratio strictly below
  the limit ratio, one pause command followed by one notification naming the torrent, in
  batch order, and nothing else of that kind. The pass reads neither the frame's state nor
  whether the torrent is paused, so this holds in every pass in which the handle is below
  the limit.
\<close>

theorem governor_pauses_on_every_pass:
  assumes "pause_on_low_disk_space cfg" and "WIN32 e"
  shows "filter governor_effect (fst (on_torrents_updated e cfg ts s)) =
           concat (map (\<lambda>t. [Pause t, ShowBalloon ''pause_on_low_disk_space_alert'' (status_name t)])
             (filter (below_limit e cfg) ts))"
  using assms
  by (simp add: on_torrents_updated_def CheckDiskSpace_def Let_def governor_check_torrents
      check_torrents_eq)

theorem governor_pauses_on_every_pass_witness:
  "pause_on_low_disk_space sample_cfg \<and> WIN32 sample_env \<and>
   filter governor_effect (fst (on_torrents_updated sample_env sample_cfg [T1, T2] initial)) =
     [Pause T1, ShowBalloon ''pause_on_low_disk_space_alert'' ''Ubuntu.ISO'']"
proof -
  have a: "pause_on_low_disk_space sample_cfg" by (simp add: sample_cfg_def)
  have b: "WIN32 sample_env" by (simp add: sample_env_def)
  show ?thesis
    using a b governor_pauses_on_every_pass [OF a b, of "[T1, T2]" initial]
    by (simp add: sample_below_limit) (simp add: T1_def)
qed

text \<open>
  Claim C7: the trigger is a strict less-than on the two computed \<open>float\<close> values. For a
  handle whose disk query succeeds, the loop body issues something exactly when the available
  ratio is less than the limit ratio; when the two are equal it issues nothing. With 50 of
  100 bytes free and a limit of 50 percent both ratios are 0.5 and the pass over that handle
  issues nothing.
\<close>

theorem exactly_at_limit_does_not_pause:
  assumes "GetDiskFreeSpaceEx e (status_savePath t) = Some (freeBytes, totalBytes)"
  shows "((check_torrent e limit t \<noteq> []) =
            float_less (diskSpaceAvailable freeBytes totalBytes) (diskSpaceLimit limit))
       \<and> (diskSpaceAvailable freeBytes totalBytes = diskSpaceLimit limit \<longrightarrow>
            check_torrent e limit t = [])
       \<and> (freeBytes = 50 \<and> totalBytes = 100 \<and> pause_on_low_disk_space_limit cfg = 50 \<longrightarrow>
            diskSpaceAvailable freeBytes totalBytes = Finite (1 / 2)
            \<and> diskSpaceLimit (pause_on_low_disk_space_limit cfg) = Finite (1 / 2)
            \<and> CheckDiskSpace e cfg [t] = [])"
proof -
  have "(check_torrent e limit t \<noteq> []) =
          float_less (diskSpaceAvailable freeBytes totalBytes) (diskSpaceLimit limit)"
    using assms by (simp add: check_torrent_def)
  moreover have "check_torrent e limit t = []"
    if "diskSpaceAvailable freeBytes totalBytes = diskSpaceLimit limit"
    using assms that by (simp add: check_torrent_def float_less_irrefl)
  moreover have "CheckDiskSpace e cfg [t] = []"
    if "freeBytes = 50" "totalBytes = 100" "pause_on_low_disk_space_limit cfg = 50"
    using assms that
    by (simp add: CheckDiskSpace_def Let_def check_torrent_def avail_50_100 limit_50)
  ultimately show ?thesis
    by (auto simp: avail_50_100 limit_50)
qed

theorem exactly_at_limit_does_not_pause_witness:
  "GetDiskFreeSpaceEx sample_env (status_savePath T2) = Some (50, 100)
   \<and> pause_on_low_disk_space_limit sample_cfg = 50
   \<and> diskSpaceAvailable 50 100 = diskSpaceLimit 50
   \<and> check_torrent sample_env 50 T2 = []
   \<and> CheckDiskSpace sample_env sample_cfg [T2] = []"
proof -
  have q: "GetDiskFreeSpaceEx sample_env (status_savePath T2) = Some (50, 100)"
    by (simp add: sample_env_def T2_def)
  have l: "pause_on_low_disk_space_limit sample_cfg = 50"
    by (simp add: sample_cfg_def)
  show ?thesis
    using q l exactly_at_limit_does_not_pause [OF q, of 50 sample_cfg]
    by (simp add: avail_50_100 limit_50)
qed







section \<open>The event handlers\<close>

lemma handle_count:
  "m_torrentsCount (snd (handle e cfg ev s)) =
     m_torrentsCount s + (if is_added ev then 1 else 0) - (if is_removed ev then 1 else 0)"
  by (cases ev)
    (simp_all add: on_torrent_added_def on_torrent_removed_def on_torrents_updated_def
      on_selection_changed_def on_metadata_found_def on_dialog_closed_def Let_def
      split: option.split)

lemma snd_run_Cons: "snd (run e cfg (ev # evs) s) = snd (run e cfg evs (snd (handle e cfg ev s)))"
  by (simp add: split_beta)

lemma fst_run_Cons:
  "fst (run e cfg (ev # evs) s) =
     fst (handle e cfg ev s) @ fst (run e cfg evs (snd (handle e cfg ev s)))"
  by (simp add: split_beta)

lemma run_count:
  "m_torrentsCount (snd (run e cfg evs s)) =
     m_torrentsCount s + int (length (filter is_added evs)) - int (length (filter is_removed evs))"
proof (induction evs arbitrary: s)
  case Nil
  show ?case by simp
next
  case (Cons ev evs)
  show ?case
    unfolding snd_run_Cons Cons.IH handle_count by simp
qed

lemma count_range:
  assumes "length evs < 2 ^ 31"
  shows "- (2 ^ 31) < m_torrentsCount (snd (run e cfg (take n evs) initial))
       \<and> m_torrentsCount (snd (run e cfg (take n evs) initial)) < 2 ^ 31"
proof -
  let ?p = "take n evs"
  have a: "length (filter is_added ?p) \<le> length evs"
    by (rule order_trans [OF length_filter_le]) simp
  have r: "length (filter is_removed ?p) \<le> length evs"
    by (rule order_trans [OF length_filter_le]) simp
  have "int (length evs) < 2 ^ 31" using assms by (simp flip: of_nat_less_iff)
  then show ?thesis
    using a r by (simp add: run_count initial_def)
qed

text \<open>
  Claim C10: after any sequence of events, from any state of the frame, the torrent counter
  is its starting value (0 after construction) plus the number of added events minus the
  number of removed events. The added handler increments it and shows the new value; the
  removed handler decrements it and shows the new value whether or not the hash is selected;
  a selection change leaves it alone. Over fewer than \<open>2^31\<close> events the counter stays
  within the range of a 32-bit \<open>int\<close> at every point, so the machine counter never overflows.
\<close>

theorem counter_is_added_minus_removed:
  "m_torrentsCount (snd (run e cfg evs s)) =
     m_torrentsCount s + int (length (filter is_added evs)) - int (length (filter is_removed evs))
   \<and> m_torrentsCount (snd (run e cfg evs initial)) =
       int (length (filter is_added evs)) - int (length (filter is_removed evs))
   \<and> on_torrent_added torrent s =
       ([UpdateTorrentCount (m_torrentsCount s + 1), Model_AddTorrent torrent],
        s\<lparr>m_torrentsCount := m_torrentsCount s + 1\<rparr>)
   \<and> m_torrentsCount (snd (on_torrent_removed hash s)) = m_torrentsCount s - 1
   \<and> hd (fst (on_torrent_removed hash s)) = UpdateTorrentCount (m_torrentsCount s - 1)
   \<and> m_torrentsCount (snd (on_selection_changed items s)) = m_torrentsCount s
   \<and> (length evs < 2 ^ 31 \<longrightarrow>
        (\<forall>n. - (2 ^ 31) < m_torrentsCount (snd (run e cfg (take n evs) initial))
           \<and> m_torrentsCount (snd (run e cfg (take n evs) initial)) < 2 ^ 31))"
proof -
  have 1: "m_torrentsCount (snd (on_torrent_removed hash s)) = m_torrentsCount s - 1"
    by (simp add: on_torrent_removed_def Let_def split: option.split)
  have 2: "hd (fst (on_torrent_removed hash s)) = UpdateTorrentCount (m_torrentsCount s - 1)"
    by (simp add: on_torrent_removed_def Let_def split: option.split)
  have 3: "m_torrentsCount (snd (on_selection_changed items s)) = m_torrentsCount s"
    by (simp add: on_selection_changed_def Let_def)
  have 4: "on_torrent_added torrent s =
       ([UpdateTorrentCount (m_torrentsCount s + 1), Model_AddTorrent torrent],
        s\<lparr>m_torrentsCount := m_torrentsCount s + 1\<rparr>)"
    by (simp add: on_torrent_added_def Let_def)
  have 5: "m_torrentsCount (snd (run e cfg evs initial)) =
       int (length (filter is_added evs)) - int (length (filter is_removed evs))"
    by (simp add: run_count initial_def)
  show ?thesis
    using 1 2 3 4 5 run_count [of e cfg evs s] count_range [of evs e cfg] by blast
qed

theorem counter_is_added_minus_removed_witness:
  "length [TorrentAdded T1, TorrentAdded T2, SelectionChanged [T1, T2], TorrentRemoved H1]
     < 2 ^ 31
   \<and> m_torrentsCount (snd (run sample_env sample_cfg
         [TorrentAdded T1, TorrentAdded T2, SelectionChanged [T1, T2], TorrentRemoved H1]
         initial)) = 2 - 1"
proof -
  have c: "m_torrentsCount (snd (run sample_env sample_cfg
         [TorrentAdded T1, TorrentAdded T2, SelectionChanged [T1, T2], TorrentRemoved H1]
         initial)) =
       int (length (filter is_added
         [TorrentAdded T1, TorrentAdded T2, SelectionChanged [T1, T2], TorrentRemoved H1]))
       - int (length (filter is_removed
         [TorrentAdded T1, TorrentAdded T2, SelectionChanged [T1, T2], TorrentRemoved H1]))"
    by (rule counter_is_added_minus_removed [THEN conjunct2, THEN conjunct1])
  show ?thesis
    unfolding c by simp
qed


section \<open>The selection\<close>

lemma map_find_erase:
  "map_find (map_erase k m) k' = (if k' = k then None else map_find m k')"
  by (induction m) (auto simp: map_find_def map_erase_def)

lemma map_find_insert:
  "map_find (map_insert (k, v) m) k' =
     (case map_find m k' of Some w \<Rightarrow> Some w | None \<Rightarrow> if k' = k then Some v else None)"
  by (auto simp: map_find_def map_insert_def map_add_def split: option.split)

lemma map_find_selectedUpdated:
  "map_find (selectedUpdated sel ts acc) h =
     (case map_find acc h of
        Some t \<Rightarrow> Some t
      | None \<Rightarrow> if map_find sel h = None then None else find (\<lambda>t. InfoHash t = h) ts)"
proof (induction ts arbitrary: acc)
  case Nil
  show ?case by (simp split: option.split)
next
  case (Cons t ts)
  show ?case
    by (auto simp: Cons.IH Let_def map_find_insert split: option.split)
qed

lemma no_refresh_in_CheckDiskSpace: "filter is_refresh (CheckDiskSpace e cfg ts) = []"
proof -
  have "filter is_refresh (check_torrents e l ts) = []" for l
    by (induction ts) (auto simp: check_torrent_def split: option.split prod.split)
  then show ?thesis by (simp add: CheckDiskSpace_def Let_def)
qed

lemma sample_selection:
  "snd (on_selection_changed [T1, T2] initial) = initial\<lparr>m_selection := [(H1, T1), (H2, T2)]\<rparr>"
  "snd (on_selection_changed [T1] initial) = initial\<lparr>m_selection := [(H1, T1)]\<rparr>"
  by (simp_all add: on_selection_changed_def Let_def map_insert_def T1_def T2_def H1_def H2_def)

text \<open>
  Claim C3, as the specification states it: the detail view is reset exactly when the removal
  leaves the selection empty. The handler resets it whenever the removed hash was selected:
  with two torrents selected, removing the first resets the detail view and leaves the second
  selected.
\<close>

theorem removed_resets_only_when_empty_counterexample:
  "run sample_env sample_cfg
     [TorrentAdded T1, TorrentAdded T2, SelectionChanged [T1, T2], TorrentRemoved H1] initial =
   ([UpdateTorrentCount 1, Model_AddTorrent T1, UpdateTorrentCount 2, Model_AddTorrent T2,
     Details_Refresh [(H1, T1), (H2, T2)],
     UpdateTorrentCount 1, Model_RemoveTorrent H1, Details_Reset],
    \<lparr>m_torrentsCount = 1, m_selection = [(H2, T2)], m_addDialogs = [], next_dialog = 0\<rparr>)"
proof -
  have ne: "H1 \<noteq> H2" by (simp add: H1_def H2_def)
  have i: "InfoHash T1 = H1" "InfoHash T2 = H2" by (simp_all add: T1_def T2_def)
  show ?thesis
    using ne
    by (simp add: on_torrent_added_def on_torrent_removed_def on_selection_changed_def
        initial_def Let_def map_insert_def map_find_def map_erase_def i)
qed

text \<open>
  Claim C3, amended: on a removed event the hash is erased from the selection if present and
  every other entry is kept; the detail view is reset if and only if the hash was a key of
  the selection before the event, whether or not other torrents remain selected.
\<close>

theorem removed_resets_details_iff_selected:
  "map_find (m_selection (snd (on_torrent_removed hash s))) hash = None
   \<and> (\<forall>k. k \<noteq> hash \<longrightarrow>
         map_find (m_selection (snd (on_torrent_removed hash s))) k = map_find (m_selection s) k)
   \<and> (Details_Reset \<in> set (fst (on_torrent_removed hash s))) =
       (map_find (m_selection s) hash \<noteq> None)"
  by (auto simp: on_torrent_removed_def Let_def map_find_erase split: option.split)

theorem removed_resets_details_iff_selected_witness:
  "H2 \<noteq> H1
   \<and> map_find (m_selection (snd (on_torrent_removed H1
         (snd (on_selection_changed [T1, T2] initial))))) H2 = Some T2
   \<and> Details_Reset \<in> set (fst (on_torrent_removed H1
         (snd (on_selection_changed [T1, T2] initial))))"
proof -
  have ne: "H2 \<noteq> H1" by (simp add: H1_def H2_def)
  have sel: "map_find (m_selection (snd (on_selection_changed [T1, T2] initial))) H1 = Some T1"
    "map_find (m_selection (snd (on_selection_changed [T1, T2] initial))) H2 = Some T2"
    using ne by (simp_all add: sample_selection map_find_def)
  show ?thesis
    using removed_resets_details_iff_selected
      [of H1 "snd (on_selection_changed [T1, T2] initial)"] ne sel
    by simp
qed

text \<open>
  Claim C5, as the specification states it: an updated handle whose hash is selected replaces
  the handle stored in the selection. The handler never writes to the selection: with the
  first torrent selected, an update that carries another handle object (address 7) for the
  same hash is passed on for refresh, and the selection still holds the old handle.
\<close>

theorem updated_replaces_handle_counterexample:
  "run sample_env sample_cfg
     [SelectionChanged [T1], TorrentsUpdated [T1\<lparr>handle_ptr := 7\<rparr>, T2]] initial =
   ([Details_Refresh [(H1, T1)],
     Model_UpdateTorrents [T1\<lparr>handle_ptr := 7\<rparr>, T2],
     Details_Refresh [(H1, T1\<lparr>handle_ptr := 7\<rparr>)],
     Pause (T1\<lparr>handle_ptr := 7\<rparr>),
     ShowBalloon ''pause_on_low_disk_space_alert'' ''Ubuntu.ISO''],
    initial\<lparr>m_selection := [(H1, T1)]\<rparr>)"
proof -
  have ne: "H1 \<noteq> H2" "H2 \<noteq> H1" by (simp_all add: H1_def H2_def)
  have i: "InfoHash T1 = H1" "InfoHash T2 = H2" "status_name T1 = ''Ubuntu.ISO''"
    by (simp_all add: T1_def T2_def)
  have b: "below_limit sample_env sample_cfg (T1\<lparr>handle_ptr := 7\<rparr>)"
    using sample_below_limit(1) by (simp add: below_limit_def)
  have c: "pause_on_low_disk_space sample_cfg" "WIN32 sample_env"
    by (simp_all add: sample_cfg_def sample_env_def)
  have d: "CheckDiskSpace sample_env sample_cfg [T1\<lparr>handle_ptr := 7\<rparr>, T2] =
             [Pause (T1\<lparr>handle_ptr := 7\<rparr>),
              ShowBalloon ''pause_on_low_disk_space_alert'' ''Ubuntu.ISO'']"
    by (simp add: CheckDiskSpace_def Let_def c check_torrent_eq b sample_below_limit i)
  show ?thesis
    using ne
    by (simp add: on_torrents_updated_def on_selection_changed_def d
        initial_def Let_def map_insert_def map_find_def i)
qed

text \<open>
  Claim C5, amended: an updated event leaves the frame, and so the selection, unchanged. The
  selected-and-updated subset maps every hash that is a selection key to the first handle of
  the batch with that hash, and holds no other hash; it is passed to the detail view for
  refresh, once, when it is not empty, and nothing is refreshed otherwise.
\<close>

theorem updated_leaves_selection_alone:
  "snd (on_torrents_updated e cfg ts s) = s
   \<and> (\<forall>h. map_find (selectedUpdated (m_selection s) ts []) h =
            (if map_find (m_selection s) h = None then None
             else find (\<lambda>t. InfoHash t = h) ts))
   \<and> filter is_refresh (fst (on_torrents_updated e cfg ts s)) =
       (if selectedUpdated (m_selection s) ts [] = [] then []
        else [Details_Refresh (selectedUpdated (m_selection s) ts [])])"
  by (simp add: on_torrents_updated_def Let_def map_find_selectedUpdated
      no_refresh_in_CheckDiskSpace) (simp add: map_find_def)

theorem updated_leaves_selection_alone_witness:
  "snd (on_torrents_updated sample_env sample_cfg [T1\<lparr>handle_ptr := 7\<rparr>, T2]
          (snd (on_selection_changed [T1] initial))) = snd (on_selection_changed [T1] initial)
   \<and> map_find (selectedUpdated (m_selection (snd (on_selection_changed [T1] initial)))
         [T1\<lparr>handle_ptr := 7\<rparr>, T2] []) H1 = Some (T1\<lparr>handle_ptr := 7\<rparr>)
   \<and> map_find (selectedUpdated (m_selection (snd (on_selection_changed [T1] initial)))
         [T1\<lparr>handle_ptr := 7\<rparr>, T2] []) H2 = None"
proof -
  have ne: "H2 \<noteq> H1" by (simp add: H1_def H2_def)
  have i: "InfoHash T1 = H1" "InfoHash T2 = H2" by (simp_all add: T1_def T2_def)
  show ?thesis
    using updated_leaves_selection_alone
      [of sample_env sample_cfg "[T1\<lparr>handle_ptr := 7\<rparr>, T2]"
        "snd (on_selection_changed [T1] initial)"] ne
    by (simp add: sample_selection map_find_def i)
qed


section \<open>Adding torrents\<close>

lemma needs_metadata_eq: "needs_metadata p = metadata_pending p"
  by (auto simp: needs_metadata_def metadata_pending_def has_v1_def has_v2_def is_all_zeros_def)

lemma error_is_regex_error: "(err :: error) = regex_error"
  by (cases err) simp

lemma match_labels_raises:
  "isl (match_labels e ls p) = (derived_name p \<noteq> [] \<and> reaches_invalid e (derived_name p) ls)"
  by (induction ls) (auto simp: uses_pattern_def)

lemma match_labels_keeps:
  "match_labels e ls p = Inr p2 \<Longrightarrow>
     info_hashes p2 = info_hashes p \<and> ti p2 = ti p \<and> name p2 = name p \<and> flags p2 = flags p"
  by (induction ls) (auto split: if_splits)

lemma valid_never_reaches: "patterns_valid e ls \<Longrightarrow> \<not> reaches_invalid e n ls"
  by (induction ls) (auto simp: patterns_valid_def)

lemma derived_name_defaults [simp]:
  "derived_name (p\<lparr>flags := f, save_path := sp, userdata := u\<rparr>) = derived_name p"
  by (simp add: derived_name_def)

lemma metadata_pending_defaults [simp]:
  "metadata_pending (p\<lparr>flags := f, save_path := sp, userdata := u\<rparr>) = metadata_pending p"
  by (simp add: metadata_pending_def)

lemma classify_raises:
  "isl (classify e cfg ps hs) =
     (\<exists>p\<in>set ps. derived_name p \<noteq> [] \<and> reaches_invalid e (derived_name p) (labels cfg))"
proof (induction ps arbitrary: hs)
  case Nil
  show ?case by simp
next
  case (Cons p ps)
  let ?p1 = "p\<lparr>flags := flags p OR duplicate_is_error, save_path := default_save_path cfg,
                 userdata := Some \<lparr>labelId = None\<rparr>\<rparr>"
  let ?hs1 = "if needs_metadata ?p1 then hs @ [info_hashes ?p1] else hs"
  show ?case
  proof (cases "match_labels e (labels cfg) ?p1")
    case (Inl err)
    then have "isl (match_labels e (labels cfg) ?p1)" by simp
    then have "derived_name p \<noteq> [] \<and> reaches_invalid e (derived_name p) (labels cfg)"
      by (simp add: match_labels_raises)
    with Inl show ?thesis by (simp add: Let_def)
  next
    case (Inr p2)
    then have "\<not> isl (match_labels e (labels cfg) ?p1)" by simp
    then have n: "\<not> (derived_name p \<noteq> [] \<and> reaches_invalid e (derived_name p) (labels cfg))"
      by (simp add: match_labels_raises)
    have step: "isl (classify e cfg (p # ps) hs) = isl (classify e cfg ps ?hs1)"
      using Inr by (simp add: Let_def split: sum.split prod.split)
    have "isl (classify e cfg (p # ps) hs) =
            (\<exists>p\<in>set ps. derived_name p \<noteq> [] \<and> reaches_invalid e (derived_name p) (labels cfg))"
      unfolding step by (rule Cons.IH)
    then show ?thesis
      using n by (auto simp del: classify.simps)
  qed
qed

lemma classify_result:
  "classify e cfg ps hs = Inr (ready, hashes) \<Longrightarrow>
     hashes = hs @ map info_hashes (filter metadata_pending ps)
     \<and> map info_hashes ready = map info_hashes ps
     \<and> map ti ready = map ti ps \<and> map name ready = map name ps"
proof (induction ps arbitrary: hs ready hashes)
  case Nil
  then show ?case by simp
next
  case (Cons p ps)
  let ?p1 = "p\<lparr>flags := flags p OR duplicate_is_error, save_path := default_save_path cfg,
                 userdata := Some \<lparr>labelId = None\<rparr>\<rparr>"
  from Cons.prems obtain p2 ps2 where
    m: "match_labels e (labels cfg) ?p1 = Inr p2" and
    c: "classify e cfg ps (if needs_metadata ?p1 then hs @ [info_hashes ?p1] else hs) = Inr (ps2, hashes)" and
    r: "ready = p2 # ps2"
    by (auto simp: Let_def split: sum.splits prod.splits)
  from match_labels_keeps [OF m] Cons.IH [OF c] r
  show ?case
    by (auto simp: needs_metadata_eq)
qed

lemma classify_skip_flag:
  "classify e (cfg\<lparr>skip_add_torrent_dialog := b\<rparr>) ps hs = classify e cfg ps hs"
  by (induction ps arbitrary: hs) (simp_all add: Let_def split: sum.split)


lemma classify_length:
  "classify e cfg ps hs = Inr (ready, hashes) \<Longrightarrow> length ready = length ps"
  using classify_result [of e cfg ps hs ready hashes]
  by (metis length_map)

lemma show_dialogs_no_search: "filter is_metadata_search (fst (show_dialogs ps s)) = []"
  by (induction ps arbitrary: s) (simp_all add: Let_def split_beta)

lemma show_dialogs_eq:
  "show_dialogs ps s =
     (map (\<lambda>(i, p). Dialog_Show \<lparr>dlg_ptr = i, dlg_param = p\<rparr>) (enumerate (next_dialog s) ps),
      s\<lparr>m_addDialogs :=
           m_addDialogs s @ map (\<lambda>(i, p). \<lparr>dlg_ptr = i, dlg_param = p\<rparr>) (enumerate (next_dialog s) ps),
         next_dialog := next_dialog s + length ps\<rparr>)"
  by (induction ps arbitrary: s) (simp_all add: Let_def)

lemma show_dialogs_dialogs:
  "m_addDialogs (snd (show_dialogs ps s)) =
     m_addDialogs s @ map (\<lambda>(i, p). \<lparr>dlg_ptr = i, dlg_param = p\<rparr>) (enumerate (next_dialog s) ps)"
  by (induction ps arbitrary: s) (simp_all add: Let_def split_beta)

lemma dialog_of_ready:
  assumes "i < length ps"
  shows "\<lparr>dlg_ptr = next_dialog s + i, dlg_param = ps ! i\<rparr> \<in> set (m_addDialogs (snd (show_dialogs ps s)))"
proof -
  have "(next_dialog s + i, ps ! i) \<in> set (enumerate (next_dialog s) ps)"
    using assms by (simp add: in_set_enumerate_eq)
  then have "(\<lambda>(i, p). \<lparr>dlg_ptr = i, dlg_param = p\<rparr>) (next_dialog s + i, ps ! i)
       \<in> set (map (\<lambda>(i, p). \<lparr>dlg_ptr = i, dlg_param = p\<rparr>) (enumerate (next_dialog s) ps))"
    by (simp only: set_map) (rule imageI)
  then show ?thesis
    by (simp add: show_dialogs_dialogs)
qed

lemma handle_keeps_dialog:
  assumes "d \<in> set (m_addDialogs s)" and "ev \<noteq> DialogClosed (dlg_ptr d)"
  shows "d \<in> set (m_addDialogs (snd (handle e cfg ev s)))"
  using assms
  by (cases ev)
    (auto simp: on_torrent_added_def on_torrent_removed_def on_torrents_updated_def
      on_selection_changed_def on_metadata_found_def on_dialog_closed_def Let_def
      split: option.split)

lemma run_keeps_dialog:
  assumes "d \<in> set (m_addDialogs s)" and "DialogClosed (dlg_ptr d) \<notin> set evs"
  shows "d \<in> set (m_addDialogs (snd (run e cfg evs s)))"
  using assms
proof (induction evs arbitrary: s)
  case Nil
  then show ?case by simp
next
  case (Cons ev evs)
  from Cons.prems have "d \<in> set (m_addDialogs (snd (handle e cfg ev s)))"
    by (intro handle_keeps_dialog) auto
  then have "d \<in> set (m_addDialogs (snd (run e cfg evs (snd (handle e cfg ev s)))))"
    using Cons.prems by (intro Cons.IH) auto
  then show ?case
    by (simp only: snd_run_Cons)
qed

lemma sample_classify:
  "classify sample_env sample_cfg [magnet1, magnet2] [] = Inr ([ready1, ready2], [H1, H2])"
  "classify sample_env sample_cfg [magnet1] [] = Inr ([ready1], [H1])"
  "classify sample_env sample_cfg [magnet1, file1, magnet1] [] =
     Inr ([ready1, ready_file1, ready1], [H1, H1])"
  by code_simp+

lemma sample_AddTorrents:
  "AddTorrents sample_env sample_cfg [magnet1, magnet2] initial =
     Inr ([ready1, ready2],
          [Dialog_Show \<lparr>dlg_ptr = 0, dlg_param = ready1\<rparr>,
           Dialog_Show \<lparr>dlg_ptr = 1, dlg_param = ready2\<rparr>,
           Session_AddMetadataSearch [H1, H2]],
          two_dialogs)"
  by code_simp

lemma sample_skip:
  "AddTorrents sample_env (sample_cfg\<lparr>skip_add_torrent_dialog := True\<rparr>) [magnet1] initial =
     Inr ([ready1], [Session_AddTorrent ready1], initial)"
  by code_simp

lemma sample_broken:
  "AddTorrents sample_env (sample_cfg\<lparr>labels := [broken_label, iso_label]\<rparr>) [magnet1] initial =
     Inl regex_error"
  by code_simp

lemma sample_found:
  "fst (on_metadata_found found1 two_dialogs) = [PostEvent 0 found1, PostEvent 1 found1]"
  by code_simp

lemma sample_valid: "patterns_valid sample_env (labels sample_cfg)"
  by code_simp

text \<open>
  Claim C2: whenever classification of a batch completes, \<open>pending_hashes\<close> is the list of
  the hashes of exactly the descriptors that have no full description and a v1 or v2 hash
  that is not all zeros, in input order and with repetitions kept; a hash all of whose
  descriptors carry a full description is not in it; \<open>ready\<close> has the length of the batch
  and, position by position, the hashes, descriptions and names of the input. Classification
  completes for every batch when every pattern the labels use compiles.
\<close>

theorem pending_hashes_exact:
  "(classify e cfg batch [] = Inr (ready, pending_hashes) \<longrightarrow>
      pending_hashes = map info_hashes (filter metadata_pending batch)
      \<and> length ready = length batch
      \<and> map info_hashes ready = map info_hashes batch
      \<and> map ti ready = map ti batch
      \<and> map name ready = map name batch
      \<and> ((\<forall>p\<in>set batch. info_hashes p = h \<longrightarrow> ti p \<noteq> None) \<longrightarrow> h \<notin> set pending_hashes))
   \<and> (patterns_valid e (labels cfg) \<longrightarrow>
        (\<exists>ready. classify e cfg batch [] =
           Inr (ready, map info_hashes (filter metadata_pending batch))))"
proof -
  have a: "pending_hashes = map info_hashes (filter metadata_pending batch)
      \<and> length ready = length batch
      \<and> map info_hashes ready = map info_hashes batch
      \<and> map ti ready = map ti batch
      \<and> map name ready = map name batch"
    if "classify e cfg batch [] = Inr (ready, pending_hashes)"
    using classify_result [OF that] classify_length [OF that] by simp
  have b: "h \<notin> set (map info_hashes (filter metadata_pending batch))"
    if "\<forall>p\<in>set batch. info_hashes p = h \<longrightarrow> ti p \<noteq> None"
    using that by (auto simp: metadata_pending_def)
  have c: "\<exists>ready. classify e cfg batch [] =
           Inr (ready, map info_hashes (filter metadata_pending batch))"
    if v: "patterns_valid e (labels cfg)"
  proof -
    have "\<not> isl (classify e cfg batch [])"
      by (simp add: classify_raises valid_never_reaches [OF v])
    then obtain r hs where r: "classify e cfg batch [] = Inr (r, hs)"
      by (cases "classify e cfg batch []") auto
    from classify_result [OF r] r show ?thesis by simp
  qed
  show ?thesis
    using a b c by blast
qed

theorem pending_hashes_exact_witness:
  "patterns_valid sample_env (labels sample_cfg)
   \<and> classify sample_env sample_cfg [magnet1, file1, magnet1] [] =
       Inr ([ready1, ready_file1, ready1], [H1, H1])
   \<and> [H1, H1] = map info_hashes (filter metadata_pending [magnet1, file1, magnet1])
   \<and> length [ready1, ready_file1, ready1] = length [magnet1, file1, magnet1]"
proof -
  note c = sample_classify(3)
  have t: "[H1, H1] = map info_hashes (filter metadata_pending [magnet1, file1, magnet1])"
    using pending_hashes_exact
      [of sample_env sample_cfg "[magnet1, file1, magnet1]" "[ready1, ready_file1, ready1]"
        "[H1, H1]" H2] c
    by blast
  show ?thesis
    by (intro conjI sample_valid c t) simp
qed

text \<open>
  Claim C4, as the specification states it: a label with an invalid pattern counts as a
  failed match and the next label is tried. The code constructs the \<open>std::regex\<close> with no
  handler around it: with the label of pattern \<open>(\<close> ahead of the label that would match,
  \<open>AddTorrents\<close> ends with \<open>std::regex_error\<close>.
\<close>

theorem invalid_pattern_is_skipped_counterexample:
  "AddTorrents sample_env (sample_cfg\<lparr>labels := [broken_label, iso_label]\<rparr>) [magnet1] initial =
     Inl regex_error
   \<and> \<not> regex_valid sample_env (applyFilter broken_label)
   \<and> regex_search sample_env (derived_name magnet1) (applyFilter iso_label)"
  by (intro conjI sample_broken) code_simp+

text \<open>
  Claim C4, amended: \<open>AddTorrents\<close> ends with \<open>std::regex_error\<close>, having submitted nothing,
  exactly when for some descriptor of the batch with a non-empty derived name the labels,
  tried in order, reach one that uses a pattern that does not compile before any label
  matches. No other error arises, and when every pattern the labels use compiles the call
  returns normally.
\<close>

theorem invalid_pattern_aborts_pass:
  "isl (AddTorrents e cfg batch s) =
     (\<exists>p\<in>set batch. derived_name p \<noteq> [] \<and> reaches_invalid e (derived_name p) (labels cfg))
   \<and> (isl (AddTorrents e cfg batch s) \<longrightarrow> AddTorrents e cfg batch s = Inl regex_error)
   \<and> (patterns_valid e (labels cfg) \<longrightarrow> \<not> isl (AddTorrents e cfg batch s))"
proof -
  have a: "isl (AddTorrents e cfg batch s) = isl (classify e cfg batch [])"
    by (cases batch) (auto simp: AddTorrents_def Let_def split: sum.split prod.split)
  have b: "AddTorrents e cfg batch s = Inl regex_error" if "isl (AddTorrents e cfg batch s)"
    using that error_is_regex_error by (cases "AddTorrents e cfg batch s") auto
  show ?thesis
    using a b valid_never_reaches [of e "labels cfg"] by (auto simp: classify_raises)
qed

theorem invalid_pattern_aborts_pass_witness:
  "isl (AddTorrents sample_env (sample_cfg\<lparr>labels := [broken_label, iso_label]\<rparr>) [magnet1] initial)
   \<and> AddTorrents sample_env (sample_cfg\<lparr>labels := [broken_label, iso_label]\<rparr>) [magnet1] initial =
       Inl regex_error
   \<and> patterns_valid sample_env (labels sample_cfg)
   \<and> \<not> isl (AddTorrents sample_env sample_cfg [magnet1] initial)"
proof -
  have r: "\<exists>p\<in>set [magnet1]. derived_name p \<noteq> []
      \<and> reaches_invalid sample_env (derived_name p)
          (labels (sample_cfg\<lparr>labels := [broken_label, iso_label]\<rparr>))"
    by code_simp
  show ?thesis
    using r sample_valid
      invalid_pattern_aborts_pass
        [of sample_env "sample_cfg\<lparr>labels := [broken_label, iso_label]\<rparr>" "[magnet1]" initial]
      invalid_pattern_aborts_pass [of sample_env sample_cfg "[magnet1]" initial]
    by blast
qed

text \<open>
  Claim C6, as the specification states it: a metadata-search request with the pending hashes
  is submitted for every non-empty batch, whatever the skip flag says. With the flag set,
  \<open>AddTorrents\<close> returns after submitting the descriptors to the session: for a batch of one
  magnet link, whose hash is pending, no search is requested.
\<close>

theorem metadata_search_always_counterexample:
  "classify sample_env (sample_cfg\<lparr>skip_add_torrent_dialog := True\<rparr>) [magnet1] [] =
     Inr ([ready1], [H1])
   \<and> AddTorrents sample_env (sample_cfg\<lparr>skip_add_torrent_dialog := True\<rparr>) [magnet1] initial =
       Inr ([ready1], [Session_AddTorrent ready1], initial)"
  by (intro conjI sample_skip) (simp only: classify_skip_flag sample_classify)

text \<open>
  Claim C6, amended: the skip flag does not alter what classification yields. For a
  non-empty batch whose classification completes: with the flag clear, one dialog is created
  and shown for each ready descriptor, in order, at consecutive addresses and holding that
  descriptor, each is added to the open dialogs, and then exactly one metadata-search request,
  carrying exactly the collected pending hashes, is submitted; with the flag set, each ready
  descriptor is submitted to the session and no metadata search is requested.
\<close>

theorem metadata_search_only_with_review:
  assumes "batch \<noteq> []" and "classify e cfg batch [] = Inr (ready, pending_hashes)"
  shows "classify e (cfg\<lparr>skip_add_torrent_dialog := b\<rparr>) batch [] = Inr (ready, pending_hashes)
       \<and> (\<not> skip_add_torrent_dialog cfg \<longrightarrow>
            AddTorrents e cfg batch s =
              Inr (ready, fst (show_dialogs ready s) @ [Session_AddMetadataSearch pending_hashes],
                   snd (show_dialogs ready s))
            \<and> filter is_metadata_search (fst (show_dialogs ready s)) = []
            \<and> fst (show_dialogs ready s) =
                map (\<lambda>(i, p). Dialog_Show \<lparr>dlg_ptr = i, dlg_param = p\<rparr>)
                  (enumerate (next_dialog s) ready)
            \<and> snd (show_dialogs ready s) =
                s\<lparr>m_addDialogs :=
                     m_addDialogs s @ map (\<lambda>(i, p). \<lparr>dlg_ptr = i, dlg_param = p\<rparr>)
                       (enumerate (next_dialog s) ready),
                   next_dialog := next_dialog s + length ready\<rparr>
            \<and> length (fst (show_dialogs ready s)) = length batch)
       \<and> (skip_add_torrent_dialog cfg \<longrightarrow>
            AddTorrents e cfg batch s = Inr (ready, map Session_AddTorrent ready, s))"
proof -
  have l: "length ready = length batch"
    by (rule classify_length [OF assms(2)])
  have a: "\<not> skip_add_torrent_dialog cfg \<Longrightarrow> AddTorrents e cfg batch s =
              Inr (ready, fst (show_dialogs ready s) @ [Session_AddMetadataSearch pending_hashes],
                   snd (show_dialogs ready s))"
    using assms by (simp add: AddTorrents_def Let_def split_beta)
  have k: "skip_add_torrent_dialog cfg \<Longrightarrow>
            AddTorrents e cfg batch s = Inr (ready, map Session_AddTorrent ready, s)"
    using assms by (simp add: AddTorrents_def Let_def split_beta)
  have d: "length (fst (show_dialogs ready s)) = length batch"
    by (simp add: show_dialogs_eq l)
  show ?thesis
    using a k d assms(2)
    by (simp add: classify_skip_flag show_dialogs_no_search) (simp add: show_dialogs_eq)
qed

theorem metadata_search_only_with_review_witness:
  "[magnet1] \<noteq> []
   \<and> classify sample_env sample_cfg [magnet1] [] = Inr ([ready1], [H1])
   \<and> \<not> skip_add_torrent_dialog sample_cfg
   \<and> AddTorrents sample_env sample_cfg [magnet1] initial =
       Inr ([ready1],
            [Dialog_Show \<lparr>dlg_ptr = 0, dlg_param = ready1\<rparr>, Session_AddMetadataSearch [H1]],
            initial\<lparr>m_addDialogs := [\<lparr>dlg_ptr = 0, dlg_param = ready1\<rparr>], next_dialog := 1\<rparr>)"
proof -
  have n: "[magnet1] \<noteq> []" by simp
  note c = sample_classify(2)
  have k: "\<not> skip_add_torrent_dialog sample_cfg" by (simp add: sample_cfg_def)
  have i: "next_dialog initial = 0" "m_addDialogs initial = []" by (simp_all add: initial_def)
  show ?thesis
    using n c k metadata_search_only_with_review [OF n c, of True initial]
    by (simp add: i)
qed

text \<open>
  Claim C9, as the specification states it: a resolution for hash \<open>h\<close> is not delivered to
  a consumer registered for another hash. The handler posts the event to every open dialog:
  with one dialog open for \<open>H1\<close> and one for \<open>H2\<close>, the metadata found for \<open>H1\<close> is posted
  to both.
\<close>

theorem metadata_found_only_for_its_hash_counterexample:
  "AddTorrents sample_env sample_cfg [magnet1, magnet2] initial =
     Inr ([ready1, ready2],
          [Dialog_Show \<lparr>dlg_ptr = 0, dlg_param = ready1\<rparr>,
           Dialog_Show \<lparr>dlg_ptr = 1, dlg_param = ready2\<rparr>,
           Session_AddMetadataSearch [H1, H2]],
          two_dialogs)
   \<and> fst (on_metadata_found found1 two_dialogs) = [PostEvent 0 found1, PostEvent 1 found1]
   \<and> md_hash found1 = H1
   \<and> info_hashes ready2 = H2
   \<and> H2 \<noteq> H1"
  by (intro conjI sample_AddTorrents sample_found) code_simp+

text \<open>
  Claim C9, amended: when \<open>AddTorrents\<close> has opened the review dialogs of a batch, a later
  metadata-found event is posted, unchanged, to the dialog of every descriptor of the batch
  that has not been closed since, whatever hash the event is for; in any state the event is
  posted to the open dialogs and to nothing else, and the frame is left as it was. The frame
  keeps no record of which dialog waits for which hash.
\<close>

theorem metadata_found_posted_to_every_open_dialog:
  assumes "AddTorrents e cfg batch s = Inr (ready, out, s1)"
    and "\<not> skip_add_torrent_dialog cfg"
    and "i < length ready"
    and "DialogClosed (next_dialog s + i) \<notin> set evs"
  shows "\<lparr>dlg_ptr = next_dialog s + i, dlg_param = ready ! i\<rparr> \<in> set (m_addDialogs s1)
       \<and> PostEvent (next_dialog s + i) evt
           \<in> set (fst (on_metadata_found evt (snd (run e cfg evs s1))))
       \<and> set (fst (on_metadata_found evt s2)) = (\<lambda>d. PostEvent (dlg_ptr d) evt) ` set (m_addDialogs s2)
       \<and> snd (on_metadata_found evt s2) = s2"
proof -
  let ?d = "\<lparr>dlg_ptr = next_dialog s + i, dlg_param = ready ! i\<rparr>"
  from assms(1,3) have ne: "batch \<noteq> []"
    by (auto simp: AddTorrents_def)
  from assms(1,2) ne obtain hs where
    c: "classify e cfg batch [] = Inr (ready, hs)" and s1: "s1 = snd (show_dialogs ready s)"
    by (auto simp: AddTorrents_def Let_def split_beta split: sum.splits prod.splits)
  have d: "?d \<in> set (m_addDialogs s1)"
    unfolding s1 by (rule dialog_of_ready [OF assms(3)])
  have "?d \<in> set (m_addDialogs (snd (run e cfg evs s1)))"
    using d assms(4) by (intro run_keeps_dialog) simp_all
  then have "PostEvent (dlg_ptr ?d) evt \<in> set (fst (on_metadata_found evt (snd (run e cfg evs s1))))"
    unfolding on_metadata_found_def fst_conv set_map by (rule imageI)
  then show ?thesis
    using d by (simp add: on_metadata_found_def)
qed

theorem metadata_found_posted_to_every_open_dialog_witness:
  "AddTorrents sample_env sample_cfg [magnet1, magnet2] initial =
     Inr ([ready1, ready2],
          [Dialog_Show \<lparr>dlg_ptr = 0, dlg_param = ready1\<rparr>,
           Dialog_Show \<lparr>dlg_ptr = 1, dlg_param = ready2\<rparr>,
           Session_AddMetadataSearch [H1, H2]],
          two_dialogs)
   \<and> \<not> skip_add_torrent_dialog sample_cfg
   \<and> 1 < length [ready1, ready2]
   \<and> DialogClosed (next_dialog initial + 1) \<notin> set [DialogClosed 0]
   \<and> PostEvent (next_dialog initial + 1) found1
       \<in> set (fst (on_metadata_found found1
            (snd (run sample_env sample_cfg [DialogClosed 0] two_dialogs))))"
proof -
  note a = sample_AddTorrents
  have k: "\<not> skip_add_torrent_dialog sample_cfg" by (simp add: sample_cfg_def)
  have i: "1 < length [ready1, ready2]" by simp
  have d: "DialogClosed (next_dialog initial + 1) \<notin> set [DialogClosed 0]"
    by (simp add: initial_def)
  show ?thesis
    using a k i d metadata_found_posted_to_every_open_dialog [OF a k i d, of found1 initial]
    by blast
qed

end
